theory Spec2Isabelle
  imports Main
begin

section \<open>Data model\<close>

text \<open>
  The utilities of \<^verbatim>\<open>scripts/delete_training_data_utils.js\<close> work on CouchDB
  documents, which are JavaScript objects. A value that is only passed along (an
  error, a bulk-write response, an opaque payload field) is a \<open>jsval\<close>.
\<close>

datatype jsval =
    JNull
  | JBool bool
  | JNum int
  | JStr string
  | JArr "jsval list"
  | JObj "(string \<times> jsval) list"

text \<open>
  A document carries the properties the script reads or writes, each optional
  property as an option: \<open>None\<close> is a property the object does not have (reading it
  gives \<^verbatim>\<open>undefined\<close>), \<open>Some JNull\<close> is a property that holds \<^verbatim>\<open>null\<close>.
  \<open>doc_id\<close> is \<^verbatim>\<open>_id\<close>, \<open>doc_type\<close> is \<^verbatim>\<open>type\<close>, \<open>deleted\<close> is \<^verbatim>\<open>_deleted\<close>.
  \<open>reported_date\<close> is a number of milliseconds when present. Everything else
  the document holds is in \<open>payload\<close>.
\<close>

record doc =
  doc_id :: string
  doc_type :: "string option"
  reported_date :: "int option"
  contact :: "jsval option"
  deleted :: "jsval option"
  payload :: "(string \<times> jsval) list"

text \<open>A row of a view query made with \<^verbatim>\<open>include_docs: true\<close>.\<close>

record row =
  row_id :: string
  row_doc :: doc

section \<open>The world outside: log, store and file system\<close>

text \<open>
  Everything the script does to the outside is one event of a trace, latest event
  last. A store or file-system event carries the call's arguments and its outcome:
  the script waits for each call to finish before it goes on, so a call and its
  completion are one point of the trace.
  \<^item> \<open>Log args\<close>: a call of \<^verbatim>\<open>console.log\<close> with these arguments;
  \<^item> \<open>Query view key res\<close>: \<^verbatim>\<open>db.query(view, {key: [key], include_docs: true})\<close>,
    rejected with an error (\<open>Inl\<close>) or fulfilled with \<^verbatim>\<open>result.rows\<close>;
  \<^item> \<open>BulkDocs docs res\<close>: \<^verbatim>\<open>db.bulkDocs(docs)\<close>, rejected or fulfilled with the
    response array;
  \<^item> \<open>WriteFile path docs err\<close>: \<^verbatim>\<open>fs.writeFile(path, JSON.stringify(docs), cb)\<close>,
    where \<open>err\<close> is what the callback receives (\<open>None\<close> when the write succeeded).
    The event holds the list handed to \<^verbatim>\<open>JSON.stringify\<close>, as it is at the call.
\<close>

datatype event =
    is_Log: Log "jsval list"
  | is_Query: Query string string "jsval + row list"
  | is_BulkDocs: BulkDocs "doc list" "jsval + jsval list"
  | is_WriteFile: WriteFile string "doc list" "jsval option"

type_synonym trace = "event list"

text \<open>
  The store is a parameter \<^verbatim>\<open>db\<close> of the script's functions. Its answers may
  depend on everything that happened before, so each operation reads the trace.
\<close>

record db =
  query :: "trace \<Rightarrow> string \<Rightarrow> string \<Rightarrow> jsval + row list"
  bulkDocs :: "trace \<Rightarrow> doc list \<Rightarrow> jsval + jsval list"

text \<open>The module \<^verbatim>\<open>fs\<close>: the error \<^verbatim>\<open>writeFile\<close> hands to its callback, if any.\<close>

type_synonym fs = "trace \<Rightarrow> string \<Rightarrow> doc list \<Rightarrow> jsval option"

text \<open>
  A promise is modelled by how it settles: rejected with a reason (\<open>Inl\<close>) or
  fulfilled with a value (\<open>Inr\<close>), together with the trace at that moment.
  \<open>promise_then p f\<close> is \<^verbatim>\<open>p.then(f)\<close>: the callback runs once \<open>p\<close> is fulfilled,
  from the trace \<open>p\<close> left, and a rejection passes through.
\<close>

type_synonym 'a promise = "(jsval + 'a) \<times> trace"

fun promise_then :: "'a promise \<Rightarrow> ('a \<Rightarrow> trace \<Rightarrow> 'b promise) \<Rightarrow> 'b promise" where
  "promise_then (Inl err, tr) f = (Inl err, tr)"
| "promise_then (Inr v, tr) f = f v tr"

text \<open>The store writes and the file writes of a trace, in order.\<close>

fun store_writes :: "trace \<Rightarrow> doc list list" where
  "store_writes [] = []"
| "store_writes (BulkDocs docs res # es) = docs # store_writes es"
| "store_writes (e # es) = store_writes es"

fun file_writes :: "trace \<Rightarrow> (string \<times> doc list) list" where
  "file_writes [] = []"
| "file_writes (WriteFile path docs err # es) = (path, docs) # file_writes es"
| "file_writes (e # es) = file_writes es"

section \<open>Strings\<close>

text \<open>The decimal digits of a number, as \<^verbatim>\<open>'' + n\<close> gives them.\<close>

fun string_of_nat :: "nat \<Rightarrow> string" where
  "string_of_nat n =
     (if n < 10 then [char_of (48 + n)]
      else string_of_nat (n div 10) @ [char_of (48 + n mod 10)])"

declare string_of_nat.simps [simp del]

section \<open>The utilities\<close>

definition getDocsFromRows :: "row list \<Rightarrow> doc list" where
  "getDocsFromRows rows = map row_doc rows"

definition getIdsFromRows :: "row list \<Rightarrow> string list" where
  "getIdsFromRows rows = map row_id rows"

text \<open>
  \<^verbatim>\<open>deleteDocs\<close> returns the list itself under dry-run and the promise of the
  store's response otherwise.
  It sets \<^verbatim>\<open>_deleted\<close> on the caller's objects, so the model returns, next to the
  result, the caller's list as it is after the call.
\<close>

datatype deleted_result = Docs "doc list" | Response "jsval list"

definition deleteDocs ::
  "bool \<Rightarrow> db \<Rightarrow> doc list \<Rightarrow> trace \<Rightarrow> (jsval + deleted_result) \<times> doc list \<times> trace" where
  "deleteDocs dryrun db docs tr =
     (if dryrun then
        (Inr (Docs docs), docs, tr @ [Log [JStr ''Dryrun : not deleting.'']])
      else
        let docsWithDeleteField = map (\<lambda>doc. doc\<lparr>deleted := Some (JBool True)\<rparr>) docs;
            res = bulkDocs db tr docsWithDeleteField;
            tr1 = tr @ [BulkDocs docsWithDeleteField res]
        in case res of
             Inl err \<Rightarrow> (Inl err, docsWithDeleteField, tr1)
           | Inr result \<Rightarrow>
               (Inr (Response result), docsWithDeleteField,
                tr1 @ [Log [JStr (''Deleted : '' @ string_of_nat (length result) @ '':'')],
                       Log [JArr result]]))"

text \<open>
  The guard of \<^verbatim>\<open>filterByDate\<close> is
  \<^verbatim>\<open>doc.reported_date && doc.reported_date >= start && doc.reported_date < end\<close>.
  A missing property reads as \<^verbatim>\<open>undefined\<close>, which is falsy and compares false
  with every number; the number zero is falsy too.
\<close>

definition truthy :: "int option \<Rightarrow> bool" where
  "truthy v = (case v of None \<Rightarrow> False | Some n \<Rightarrow> n \<noteq> 0)"

definition js_ge :: "int option \<Rightarrow> int \<Rightarrow> bool" where
  "js_ge v t = (case v of None \<Rightarrow> False | Some n \<Rightarrow> n \<ge> t)"

definition js_lt :: "int option \<Rightarrow> int \<Rightarrow> bool" where
  "js_lt v t = (case v of None \<Rightarrow> False | Some n \<Rightarrow> n < t)"

definition filterByDate :: "doc list \<Rightarrow> int \<Rightarrow> int \<Rightarrow> trace \<Rightarrow> doc list \<times> trace" where
  "filterByDate docsList startTimestamp endTimestamp tr =
     (let filteredList =
            filter (\<lambda>doc. truthy (reported_date doc)
                         \<and> js_ge (reported_date doc) startTimestamp
                         \<and> js_lt (reported_date doc) endTimestamp) docsList
      in (filteredList,
          tr @ [Log [JStr (''Filtered by date : '' @ string_of_nat (length filteredList))]]))"

definition filterByType :: "doc list \<Rightarrow> string \<Rightarrow> trace \<Rightarrow> doc list \<times> trace" where
  "filterByType docsList type tr =
     (let filteredList = filter (\<lambda>doc. doc_type doc = Some type) docsList
      in (filteredList,
          tr @ [Log [JStr (''Filtered by type '' @ type @ '' : ''
                           @ string_of_nat (length filteredList))]]))"

definition isContactFor :: "db \<Rightarrow> string \<Rightarrow> trace \<Rightarrow> doc list promise" where
  "isContactFor db personId tr =
     (let res = query db tr ''medic/facilities_by_contact'' personId;
          tr1 = tr @ [Query ''medic/facilities_by_contact'' personId res]
      in case res of
           Inr rows \<Rightarrow>
             (let ids = getIdsFromRows rows;
                  tr2 = (if length rows > 0 then
                           tr1 @ [Log [JStr (''Person '' @ personId @ '' is contact for ''
                                             @ string_of_nat (length rows)
                                             @ '' facilities : ''),
                                       JArr (map JStr ids)]]
                         else tr1)
              in (Inr (getDocsFromRows rows), tr2))
         | Inl err \<Rightarrow>
             (Inl err,
              tr1 @ [Log [JStr (''Error in isContactFor '' @ personId)], Log [err]]))"

text \<open>
  \<^verbatim>\<open>removeContact\<close> deletes the property \<^verbatim>\<open>contact\<close> of each object of the
  caller's list, then looks at the dry-run flag. The second component of the
  result is the caller's list as it is after the call.
\<close>

definition removeContact ::
  "db \<Rightarrow> bool \<Rightarrow> doc \<Rightarrow> doc list \<Rightarrow> trace \<Rightarrow> (jsval + doc) \<times> doc list \<times> trace" where
  "removeContact db dryrun person facilitiesList tr =
     (let facilities = map (\<lambda>facility. facility\<lparr>contact := None\<rparr>) facilitiesList
      in if dryrun then
           (Inr person, facilities,
            tr @ [Log [JStr ''Dryrun : not removing contact links.'']])
         else
           let res = bulkDocs db tr facilities;
               tr1 = tr @ [BulkDocs facilities res]
           in case res of
                Inl err \<Rightarrow> (Inl err, facilities, tr1)
              | Inr result \<Rightarrow>
                  (Inr person, facilities,
                   tr1 @ [Log [JStr (''Removed contact '' @ doc_id person @ '' from ''
                                     @ string_of_nat (length facilities)
                                     @ '' facilities'')],
                          Log [JArr result]]))"

text \<open>
  \<^verbatim>\<open>writeDocsToFile\<close> returns the list itself, not a promise, when the list is
  empty, and a promise otherwise. The promise is rejected with a message built
  from the path (the second argument of \<^verbatim>\<open>reject\<close> is dropped).
\<close>

datatype 'a returned = Plain 'a | Promise "jsval + 'a"

definition writeDocsToFile ::
  "fs \<Rightarrow> string \<Rightarrow> doc list \<Rightarrow> trace \<Rightarrow> doc list returned \<times> trace" where
  "writeDocsToFile fs filepath docsList tr =
     (if length docsList = 0 then (Plain docsList, tr)
      else
        let err = fs tr filepath docsList;
            tr1 = tr @ [WriteFile filepath docsList err]
        in case err of
             Some e \<Rightarrow> (Promise (Inl (JStr (''Couldn't write to file'' @ filepath))), tr1)
           | None \<Rightarrow>
               (Promise (Inr docsList),
                tr1 @ [Log [JStr (''Wrote '' @ string_of_nat (length docsList)
                                  @ '' docs to file '' @ filepath)]]))"

text \<open>
  \<^verbatim>\<open>cleanContactPerson\<close>: the handler of \<^verbatim>\<open>.catch\<close> logs the person and throws the
  error again. Calling \<^verbatim>\<open>.then\<close> on a plain list would throw a TypeError inside
  the callback, which the same handler receives; the value is \<^verbatim>\<open>undefined\<close>
  (\<open>None\<close>) when no facility refers to the person.
\<close>

definition type_error :: jsval where
  "type_error = JStr ''TypeError: writeDocsToFile(...).then is not a function''"

definition catch_cleanContactPerson :: "doc \<Rightarrow> jsval \<Rightarrow> trace \<Rightarrow> doc option promise" where
  "catch_cleanContactPerson person err tr =
     (Inl err,
      tr @ [Log [JStr (''Error when removing contact '' @ doc_id person)], Log [err]])"

definition cleanContactPerson ::
  "fs \<Rightarrow> db \<Rightarrow> bool \<Rightarrow> string \<Rightarrow> doc \<Rightarrow> trace \<Rightarrow> doc option promise" where
  "cleanContactPerson fs db dryrun logdir person tr =
     (case isContactFor db (doc_id person) tr of
        (Inl err, tr1) \<Rightarrow> catch_cleanContactPerson person err tr1
      | (Inr facilities, tr1) \<Rightarrow>
          if length facilities = 0 then (Inr None, tr1)
          else
            (case writeDocsToFile fs
                    (logdir @ ''/cleaned_facilities_'' @ doc_id person @ ''.json'')
                    facilities tr1 of
               (Plain docs, tr2) \<Rightarrow> catch_cleanContactPerson person type_error tr2
             | (Promise (Inl err), tr2) \<Rightarrow> catch_cleanContactPerson person err tr2
             | (Promise (Inr docs), tr2) \<Rightarrow>
                 (case removeContact db dryrun person docs tr2 of
                    (Inl err, facilities', tr3) \<Rightarrow> catch_cleanContactPerson person err tr3
                  | (Inr p, facilities', tr3) \<Rightarrow> (Inr (Some p), tr3))))"

text \<open>
  \<^verbatim>\<open>cleanContactPersons\<close> starts from \<^verbatim>\<open>Promise.resolve()\<close>, chains one \<^verbatim>\<open>.then\<close>
  per person in the order of the list, and ends with a \<^verbatim>\<open>.then\<close> that returns the
  list.
\<close>

definition cleanContactPersons ::
  "fs \<Rightarrow> db \<Rightarrow> bool \<Rightarrow> string \<Rightarrow> doc list \<Rightarrow> trace \<Rightarrow> doc list promise" where
  "cleanContactPersons fs db dryrun logdir personsList tr =
     (let promise =
            foldl (\<lambda>promise person.
                     promise_then promise
                       (\<lambda>_. cleanContactPerson fs db dryrun logdir person))
                  (Inr None, tr) personsList
      in promise_then promise (\<lambda>_ tr'. (Inr personsList, tr')))"

subsection \<open>The confirmation prompt\<close>

text \<open>
  The validator of the prompt is the regular expression \<^verbatim>\<open>/y[es]*|n[o]?/\<close>.
  \<open>rests r s\<close> lists what is left of \<open>s\<close> after each way \<open>r\<close> can match at its
  start; \<open>regex_test\<close> is \<^verbatim>\<open>RegExp.prototype.test\<close>, which looks for a match at
  any position, since the expression has no anchor.
\<close>

datatype regex =
    RChar char
  | RClass "char list"
  | RStar regex
  | ROpt regex
  | RSeq regex regex
  | RAlt regex regex

fun iterate_rests :: "(string \<Rightarrow> string list) \<Rightarrow> nat \<Rightarrow> string list \<Rightarrow> string list" where
  "iterate_rests step 0 front = front"
| "iterate_rests step (Suc n) front = front @ iterate_rests step n (concat (map step front))"

primrec rests :: "regex \<Rightarrow> string \<Rightarrow> string list" where
  "rests (RChar c) s = (case s of [] \<Rightarrow> [] | x # xs \<Rightarrow> if x = c then [xs] else [])"
| "rests (RClass cs) s = (case s of [] \<Rightarrow> [] | x # xs \<Rightarrow> if x \<in> set cs then [xs] else [])"
| "rests (RStar r) s = iterate_rests (rests r) (length s) [s]"
| "rests (ROpt r) s = rests r s @ [s]"
| "rests (RSeq r1 r2) s = concat (map (rests r2) (rests r1 s))"
| "rests (RAlt r1 r2) s = rests r1 s @ rests r2 s"

fun tails :: "string \<Rightarrow> string list" where
  "tails [] = [[]]"
| "tails (x # xs) = (x # xs) # tails xs"

definition regex_test :: "regex \<Rightarrow> string \<Rightarrow> bool" where
  "regex_test r s = list_ex (\<lambda>t. rests r t \<noteq> []) (tails s)"

record property =
  prop_name :: string
  prop_message :: string
  prop_validator :: regex
  prop_warning :: string
  prop_default :: string

definition yesno_property :: "string \<Rightarrow> property" where
  "yesno_property message =
     \<lparr>prop_name = ''yesno'',
      prop_message = message,
      prop_validator =
        RAlt (RSeq (RChar CHR ''y'') (RStar (RClass ''es'')))
             (RSeq (RChar CHR ''n'') (ROpt (RClass ''o''))),
      prop_warning = ''Must respond yes or no'',
      prop_default = ''yes''\<rparr>"

text \<open>
  The package \<^verbatim>\<open>prompt\<close> is a parameter of \<open>userConfirm\<close>: what \<^verbatim>\<open>prompt.get\<close> hands
  to its callback for a property, an error (\<open>Inl\<close>) or the answer
  \<^verbatim>\<open>result.yesno\<close>. \<^verbatim>\<open>process.exit()\<close> ends the run, so the promise of
  \<open>userConfirm\<close> is either resolved or never settled.
\<close>

type_synonym prompt = "property \<Rightarrow> jsval + string"

datatype confirmation = Resolved | ProcessExit

definition userConfirm :: "prompt \<Rightarrow> string \<Rightarrow> trace \<Rightarrow> confirmation \<times> trace" where
  "userConfirm prompt_get message tr =
     (let tr1 = tr @ [Log [JStr message]];
          property = yesno_property message
      in case prompt_get property of
           Inl err \<Rightarrow> (ProcessExit, tr1 @ [Log [err]])
         | Inr yesno \<Rightarrow>
             if yesno \<noteq> ''yes'' then
               (ProcessExit, tr1 @ [Log [JStr ''User backed out. Exiting.'']])
             else (Resolved, tr1))"

text \<open>
  Modelled from the spec: the package \<^verbatim>\<open>prompt\<close> itself is not in the repository.
  One exchange reads the lines the user types: a blank line stands for the
  default, an answer the validator rejects is asked again, and the input channel
  closing is an error.
\<close>

fun prompt_get :: "string list \<Rightarrow> prompt" where
  "prompt_get [] prop = Inl (JStr ''canceled'')"
| "prompt_get (line # lines) prop =
     (let answer = (if line = [] then prop_default prop else line)
      in if regex_test (prop_validator prop) answer then Inr answer
         else prompt_get lines prop)"

section \<open>A store, a file system and documents to run the utilities on\<close>

definition example_doc :: "string \<Rightarrow> doc" where
  "example_doc i =
     \<lparr>doc_id = i, doc_type = None, reported_date = None, contact = None,
      deleted = None, payload = []\<rparr>"

definition example_report :: "string \<Rightarrow> int \<Rightarrow> doc" where
  "example_report i t =
     (example_doc i)\<lparr>doc_type := Some ''data_record'', reported_date := Some t\<rparr>"

definition example_person :: "string \<Rightarrow> doc" where
  "example_person i = (example_doc i)\<lparr>doc_type := Some ''person''\<rparr>"

definition example_facility :: "string \<Rightarrow> string \<Rightarrow> doc" where
  "example_facility i p =
     (example_doc i)\<lparr>doc_type := Some ''clinic'', contact := Some (JStr p)\<rparr>"

text \<open>Two facilities refer to \<open>P1\<close>, one to \<open>P2\<close>, none to anybody else.\<close>

definition example_rows :: "string \<Rightarrow> row list" where
  "example_rows key =
     (if key = ''P1'' then
        [\<lparr>row_id = ''F1'', row_doc = example_facility ''F1'' ''P1''\<rparr>,
         \<lparr>row_id = ''F2'', row_doc = example_facility ''F2'' ''P1''\<rparr>]
      else if key = ''P2'' then
        [\<lparr>row_id = ''F3'', row_doc = example_facility ''F3'' ''P2''\<rparr>]
      else [])"

definition example_db :: db where
  "example_db =
     \<lparr>query = (\<lambda>tr view key. Inr (example_rows key)),
      bulkDocs = (\<lambda>tr docs. Inr (map (\<lambda>d. JObj [(''ok'', JBool True), (''id'', JStr (doc_id d))]) docs))\<rparr>"

definition offline_db :: db where
  "offline_db =
     \<lparr>query = (\<lambda>tr view key. Inl (JStr ''ECONNREFUSED'')),
      bulkDocs = (\<lambda>tr docs. Inl (JStr ''ECONNREFUSED''))\<rparr>"

definition readonly_db :: db where
  "readonly_db =
     \<lparr>query = (\<lambda>tr view key. Inr (example_rows key)),
      bulkDocs = (\<lambda>tr docs. Inl (JStr ''forbidden''))\<rparr>"

definition example_fs :: fs where
  "example_fs = (\<lambda>tr path docs. None)"

definition full_fs :: fs where
  "full_fs = (\<lambda>tr path docs. Some (JStr ''ENOSPC''))"

section \<open>Traces\<close>

lemma store_writes_append: "store_writes (xs @ ys) = store_writes xs @ store_writes ys"
  by (induction xs rule: store_writes.induct) simp_all

lemma file_writes_append: "file_writes (xs @ ys) = file_writes xs @ file_writes ys"
  by (induction xs rule: file_writes.induct) simp_all

section \<open>The steps of the cascade, one by one\<close>

lemma removeContact_dry:
  "removeContact db True person fl tr =
     (Inr person, map (\<lambda>facility. facility\<lparr>contact := None\<rparr>) fl,
      tr @ [Log [JStr ''Dryrun : not removing contact links.'']])"
  by (simp add: removeContact_def)

lemma removeContact_wet:
  "removeContact db False person fl tr =
     (let fl' = map (\<lambda>facility. facility\<lparr>contact := None\<rparr>) fl;
          tr1 = tr @ [BulkDocs fl' (bulkDocs db tr fl')]
      in case bulkDocs db tr fl' of
           Inl err \<Rightarrow> (Inl err, fl', tr1)
         | Inr result \<Rightarrow>
             (Inr person, fl',
              tr1 @ [Log [JStr (''Removed contact '' @ doc_id person @ '' from ''
                                @ string_of_nat (length fl') @ '' facilities'')],
                     Log [JArr result]]))"
  by (simp add: removeContact_def Let_def)

lemma removeContact_list:
  "fst (snd (removeContact db dryrun person fl tr)) = map (\<lambda>facility. facility\<lparr>contact := None\<rparr>) fl"
  by (simp add: removeContact_def Let_def split: sum.splits)

text \<open>What the lookup leaves in the trace.\<close>

lemma isContactFor_found:
  assumes "isContactFor db personId tr = (Inr facilities, tr1)" and "facilities \<noteq> []"
  shows "\<exists>q l. tr1 = tr @ [q, l] \<and> is_Query q \<and> is_Log l"
  using assms
  by (auto simp: isContactFor_def Let_def getDocsFromRows_def split: sum.splits if_splits)

lemma isContactFor_none:
  assumes "isContactFor db personId tr = (Inr [], tr1)"
  shows "\<exists>q. tr1 = tr @ [q] \<and> is_Query q"
  using assms
  by (auto simp: isContactFor_def Let_def getDocsFromRows_def split: sum.splits if_splits)

lemma isContactFor_rejected:
  assumes "isContactFor db personId tr = (Inl err, tr1)"
  shows "\<exists>q. tr1 = tr @ [q, Log [JStr (''Error in isContactFor '' @ personId)], Log [err]] \<and> is_Query q"
  using assms
  by (auto simp: isContactFor_def Let_def split: sum.splits if_splits)

lemma writeDocsToFile_nonempty:
  assumes "docs \<noteq> []"
  shows "writeDocsToFile fs path docs tr =
     (case fs tr path docs of
        Some e \<Rightarrow> (Promise (Inl (JStr (''Couldn't write to file'' @ path))),
                   tr @ [WriteFile path docs (Some e)])
      | None \<Rightarrow> (Promise (Inr docs),
                 tr @ [WriteFile path docs None,
                       Log [JStr (''Wrote '' @ string_of_nat (length docs)
                                  @ '' docs to file '' @ path)]]))"
  using assms by (simp add: writeDocsToFile_def Let_def split: option.splits)

text \<open>The five ways a cascade over a referenced person can go.\<close>

lemma cleanContactPerson_found:
  assumes look: "isContactFor db (doc_id person) tr = (Inr facilities, tr1)"
      and ne: "facilities \<noteq> []"
      and run: "cleanContactPerson fs db dryrun logdir person tr = (res, tr')"
  defines "path \<equiv> logdir @ ''/cleaned_facilities_'' @ doc_id person @ ''.json''"
  shows "(\<exists>e l1 l2. tr' = tr1 @ [WriteFile path facilities (Some e), l1, l2] \<and> is_Log l1 \<and> is_Log l2)
       \<or> (\<exists>l1 l2. tr' = tr1 @ [WriteFile path facilities None, l1, l2] \<and> is_Log l1 \<and> is_Log l2)
       \<or> (\<exists>l1 b l2 l3. tr' = tr1 @ [WriteFile path facilities None, l1, b, l2, l3]
             \<and> is_Log l1 \<and> is_Log l2 \<and> is_Log l3)"
proof (cases "fs tr1 path facilities")
  case (Some e)
  with look ne run show ?thesis
    by (auto simp: cleanContactPerson_def writeDocsToFile_nonempty path_def
                   catch_cleanContactPerson_def)
next
  case None
  show ?thesis
  proof (cases dryrun)
    case True
    with None look ne run show ?thesis
      by (auto simp: cleanContactPerson_def writeDocsToFile_nonempty path_def
                     removeContact_dry)
  next
    case False
    with None look ne run show ?thesis
      by (auto simp: cleanContactPerson_def writeDocsToFile_nonempty path_def
                     removeContact_wet Let_def catch_cleanContactPerson_def
               split: sum.splits)
  qed
qed

lemma isContactFor_extends:
  "isContactFor db personId tr = (r, tr') \<Longrightarrow> \<exists>new. tr' = tr @ new"
  by (auto simp add: isContactFor_def Let_def split: sum.splits if_splits)

lemma writeDocsToFile_extends:
  "writeDocsToFile fs path docs tr = (r, tr') \<Longrightarrow> \<exists>new. tr' = tr @ new"
  by (auto simp add: writeDocsToFile_def Let_def split: option.splits if_splits)

lemma removeContact_extends:
  "removeContact db dryrun person fl tr = (r, fl', tr') \<Longrightarrow> \<exists>new. tr' = tr @ new"
  by (auto simp add: removeContact_def Let_def split: sum.splits if_splits)

lemma cleanContactPerson_extends:
  "\<exists>new. snd (cleanContactPerson fs db dryrun logdir person tr) = tr @ new"
proof -
  obtain r1 t1 where a: "isContactFor db (doc_id person) tr = (r1, t1)" by force
  obtain n1 where t1: "t1 = tr @ n1" using isContactFor_extends [OF a] by blast
  show ?thesis
  proof (cases r1)
    case (Inl err)
    with a t1 show ?thesis by (simp add: cleanContactPerson_def catch_cleanContactPerson_def)
  next
    case (Inr facilities)
    show ?thesis
    proof (cases "facilities = []")
      case True
      with a t1 Inr show ?thesis by (simp add: cleanContactPerson_def)
    next
      case False
      obtain r2 t2 where b: "writeDocsToFile fs (logdir @ ''/cleaned_facilities_'' @ doc_id person @ ''.json'') facilities t1 = (r2, t2)" by force
      obtain n2 where t2: "t2 = t1 @ n2" using writeDocsToFile_extends [OF b] by blast
      show ?thesis
      proof (cases r2)
        case (Plain docs)
        with a b t1 t2 Inr False show ?thesis
          by (simp add: cleanContactPerson_def catch_cleanContactPerson_def)
      next
        case (Promise s)
        show ?thesis
        proof (cases s)
          case (Inl err)
          with a b t1 t2 Inr False Promise show ?thesis
            by (simp add: cleanContactPerson_def catch_cleanContactPerson_def)
        next
          case s: (Inr docs)
          obtain r3 f3 t3 where c: "removeContact db dryrun person docs t2 = (r3, f3, t3)"
            by (metis prod_cases3)
          obtain n3 where t3: "t3 = t2 @ n3" using removeContact_extends [OF c] by blast
          from a b c t1 t2 t3 Inr False Promise s show ?thesis
            by (cases r3) (simp_all add: cleanContactPerson_def catch_cleanContactPerson_def)
        qed
      qed
    qed
  qed
qed

lemma cleanContactPerson_rejected:
  assumes "cleanContactPerson fs db dryrun logdir person tr = (Inl err, tr')"
  shows "\<exists>mid. tr' = tr @ mid @ [Log [JStr (''Error when removing contact '' @ doc_id person)], Log [err]]"
proof -
  obtain r1 t1 where a: "isContactFor db (doc_id person) tr = (r1, t1)" by force
  obtain n1 where t1: "t1 = tr @ n1" using isContactFor_extends [OF a] by blast
  show ?thesis
  proof (cases r1)
    case (Inl e)
    with a t1 assms show ?thesis by (auto simp add: cleanContactPerson_def catch_cleanContactPerson_def)
  next
    case (Inr facilities)
    show ?thesis
    proof (cases "facilities = []")
      case True
      with a t1 Inr assms show ?thesis by (simp add: cleanContactPerson_def)
    next
      case False
      obtain r2 t2 where b: "writeDocsToFile fs (logdir @ ''/cleaned_facilities_'' @ doc_id person @ ''.json'') facilities t1 = (r2, t2)" by force
      obtain n2 where t2: "t2 = t1 @ n2" using writeDocsToFile_extends [OF b] by blast
      show ?thesis
      proof (cases r2)
        case (Plain docs)
        with a b t1 t2 Inr False assms show ?thesis
          by (auto simp add: cleanContactPerson_def catch_cleanContactPerson_def)
      next
        case (Promise s)
        show ?thesis
        proof (cases s)
          case (Inl e)
          with a b t1 t2 Inr False Promise assms show ?thesis
            by (auto simp add: cleanContactPerson_def catch_cleanContactPerson_def)
        next
          case s: (Inr docs)
          obtain r3 f3 t3 where c: "removeContact db dryrun person docs t2 = (r3, f3, t3)"
            by (metis prod_cases3)
          obtain n3 where t3: "t3 = t2 @ n3" using removeContact_extends [OF c] by blast
          from a b c t1 t2 t3 Inr False Promise s assms show ?thesis
            by (cases r3) (auto simp add: cleanContactPerson_def catch_cleanContactPerson_def)
        qed
      qed
    qed
  qed
qed

text \<open>The chain of \<^verbatim>\<open>.then\<close> calls, unrolled from the front.\<close>

lemma chain_rejected:
  "foldl (\<lambda>promise person. promise_then promise (\<lambda>_. f person)) (Inl err, tr) ps = (Inl err, tr)"
  by (induction ps) simp_all

lemma chain_Cons:
  "foldl (\<lambda>promise person. promise_then promise (\<lambda>_. f person)) (Inr v, tr) (p # ps) =
     (case f p tr of
        (Inl err, tr1) \<Rightarrow> (Inl err, tr1)
      | (Inr w, tr1) \<Rightarrow> foldl (\<lambda>promise person. promise_then promise (\<lambda>_. f person)) (Inr w, tr1) ps)"
  by (simp add: chain_rejected split: prod.splits sum.splits)

lemma chain_value:
  "foldl (\<lambda>promise person. promise_then promise (\<lambda>_. f person)) (Inr v, tr) ps = (Inl err, tr') \<Longrightarrow>
   foldl (\<lambda>promise person. promise_then promise (\<lambda>_. f person)) (Inr w, tr) ps = (Inl err, tr')"
  "foldl (\<lambda>promise person. promise_then promise (\<lambda>_. f person)) (Inr v, tr) ps = (Inr x, tr') \<Longrightarrow>
   \<exists>y. foldl (\<lambda>promise person. promise_then promise (\<lambda>_. f person)) (Inr w, tr) ps = (Inr y, tr')"
  by (cases ps; auto simp: chain_Cons simp del: foldl_Cons)+

lemma cleanContactPersons_Nil:
  "cleanContactPersons fs db dryrun logdir [] tr = (Inr [], tr)"
  by (simp add: cleanContactPersons_def)

lemma cleanContactPersons_Cons:
  "cleanContactPersons fs db dryrun logdir (p # ps) tr =
     (case cleanContactPerson fs db dryrun logdir p tr of
        (Inl err, tr1) \<Rightarrow> (Inl err, tr1)
      | (Inr w, tr1) \<Rightarrow>
          (case cleanContactPersons fs db dryrun logdir ps tr1 of
             (Inl err, tr2) \<Rightarrow> (Inl err, tr2)
           | (Inr v, tr2) \<Rightarrow> (Inr (p # ps), tr2)))"
proof -
  let ?F = "\<lambda>promise person. promise_then promise (\<lambda>_. cleanContactPerson fs db dryrun logdir person)"
  obtain r tr1 where one: "cleanContactPerson fs db dryrun logdir p tr = (r, tr1)" by force
  show ?thesis
  proof (cases r)
    case (Inl err)
    with one show ?thesis by (simp add: cleanContactPersons_def chain_rejected)
  next
    case (Inr w)
    obtain r2 tr2 where rest: "foldl ?F (Inr None, tr1) ps = (r2, tr2)" by force
    show ?thesis
    proof (cases r2)
      case (Inl err)
      from chain_value(1) [of "cleanContactPerson fs db dryrun logdir" None tr1 ps err tr2 w] rest Inl
      have "foldl ?F (Inr w, tr1) ps = (Inl err, tr2)" by simp
      with one Inr rest Inl show ?thesis by (simp add: cleanContactPersons_def)
    next
      case r2: (Inr x)
      from chain_value(2) [of "cleanContactPerson fs db dryrun logdir" None tr1 ps x tr2 w] rest r2
      obtain y where "foldl ?F (Inr w, tr1) ps = (Inr y, tr2)" by auto
      with one Inr rest r2 show ?thesis by (simp add: cleanContactPersons_def)
    qed
  qed
qed

lemma cleanContactPersons_stop:
  assumes "cleanContactPersons fs db dryrun logdir before tr = (Inr v, tr1)"
      and "cleanContactPerson fs db dryrun logdir p tr1 = (Inl err, tr2)"
  shows "cleanContactPersons fs db dryrun logdir (before @ p # rest) tr = (Inl err, tr2)"
  using assms
proof (induction before arbitrary: tr v)
  case Nil
  then show ?case
    by (simp add: cleanContactPersons_Nil cleanContactPersons_Cons)
next
  case (Cons b bs)
  from Cons.prems(1) obtain w t v' where
    b: "cleanContactPerson fs db dryrun logdir b tr = (Inr w, t)" and
    bs: "cleanContactPersons fs db dryrun logdir bs t = (Inr v', tr1)"
    by (auto simp: cleanContactPersons_Cons split: prod.splits sum.splits)
  from Cons.IH [OF bs Cons.prems(2)] b show ?case
    by (simp add: cleanContactPersons_Cons)
qed

lemma step_failure:
  assumes "fst (isContactFor db (doc_id p) tr) = Inl err
         \<or> (\<exists>facilities tA tB.
               isContactFor db (doc_id p) tr = (Inr facilities, tA) \<and> facilities \<noteq> []
             \<and> writeDocsToFile fs (logdir @ ''/cleaned_facilities_'' @ doc_id p @ ''.json'')
                  facilities tA = (Promise (Inl err), tB))
         \<or> (\<exists>facilities tA docs tB facilities' tC.
               isContactFor db (doc_id p) tr = (Inr facilities, tA) \<and> facilities \<noteq> []
             \<and> writeDocsToFile fs (logdir @ ''/cleaned_facilities_'' @ doc_id p @ ''.json'')
                  facilities tA = (Promise (Inr docs), tB)
             \<and> removeContact db dryrun p docs tB = (Inl err, facilities', tC))"
  shows "fst (cleanContactPerson fs db dryrun logdir p tr) = Inl err"
  using assms
  by (cases "isContactFor db (doc_id p) tr")
     (auto simp: cleanContactPerson_def catch_cleanContactPerson_def)

section \<open>The date filter, case by case\<close>

lemma filter_guard:
  "(truthy v \<and> js_ge v s \<and> js_lt v e) = (\<exists>t. v = Some t \<and> t \<noteq> 0 \<and> s \<le> t \<and> t < e)"
  by (cases v) (auto simp: truthy_def js_ge_def js_lt_def)

lemma filterByDate_filter:
  "fst (filterByDate docs t0 t1 tr) =
     filter (\<lambda>d. \<exists>t. reported_date d = Some t \<and> t \<noteq> 0 \<and> t0 \<le> t \<and> t < t1) docs"
  by (simp add: filterByDate_def Let_def filter_guard)

section \<open>Unfolding the examples\<close>

lemmas example_defs =
  example_db_def example_fs_def example_rows_def example_person_def example_facility_def
  example_doc_def offline_db_def readonly_db_def full_fs_def example_report_def

lemmas cascade_defs =
  cleanContactPerson_def isContactFor_def writeDocsToFile_def removeContact_def
  catch_cleanContactPerson_def getDocsFromRows_def getIdsFromRows_def Let_def

section \<open>Properties\<close>

text \<open>
  C1. With dry-run off, \<open>deleteDocs\<close> issues one store write, of the input list
  with \<^verbatim>\<open>_deleted\<close> set to \<^verbatim>\<open>true\<close> on every document: as many documents as it
  was given, each otherwise unchanged, none left out. With dry-run on it issues no
  store write and no file write, and it returns the input list, which it has not
  touched.
\<close>

theorem deleteDocs_tombstones:
  assumes "deleteDocs dryrun db docs tr = (res, docs', tr')"
  shows "(\<not> dryrun \<longrightarrow>
            store_writes tr' = store_writes tr @ [docs']
          \<and> docs' = map (\<lambda>doc. doc\<lparr>deleted := Some (JBool True)\<rparr>) docs
          \<and> length docs' = length docs
          \<and> (\<forall>doc \<in> set docs'. deleted doc = Some (JBool True)))
       \<and> (dryrun \<longrightarrow>
            store_writes tr' = store_writes tr \<and> file_writes tr' = file_writes tr
          \<and> res = Inr (Docs docs) \<and> docs' = docs)"
proof (cases dryrun)
  case True
  with assms show ?thesis
    by (auto simp: deleteDocs_def store_writes_append file_writes_append)
next
  case False
  with assms show ?thesis
    by (cases "bulkDocs db tr (map (\<lambda>doc. doc\<lparr>deleted := Some (JBool True)\<rparr>) docs)")
       (auto simp: deleteDocs_def Let_def store_writes_append)
qed

theorem deleteDocs_tombstones_witness:
  "store_writes (snd (snd (deleteDocs False example_db [example_report ''R1'' 5, example_report ''R2'' 7] [])))
     = [[(example_report ''R1'' 5)\<lparr>deleted := Some (JBool True)\<rparr>,
         (example_report ''R2'' 7)\<lparr>deleted := Some (JBool True)\<rparr>]]
   \<and> store_writes (snd (snd (deleteDocs True example_db [example_report ''R1'' 5, example_report ''R2'' 7] []))) = []
   \<and> fst (deleteDocs True example_db [example_report ''R1'' 5, example_report ''R2'' 7] [])
       = Inr (Docs [example_report ''R1'' 5, example_report ''R2'' 7])"
proof -
  let ?docs = "[example_report ''R1'' 5, example_report ''R2'' 7]"
  have wet: "deleteDocs False example_db ?docs [] =
               (fst (deleteDocs False example_db ?docs []),
                fst (snd (deleteDocs False example_db ?docs [])),
                snd (snd (deleteDocs False example_db ?docs [])))"
    by simp
  have dry: "deleteDocs True example_db ?docs [] =
               (fst (deleteDocs True example_db ?docs []),
                fst (snd (deleteDocs True example_db ?docs [])),
                snd (snd (deleteDocs True example_db ?docs [])))"
    by simp
  from deleteDocs_tombstones [OF wet] deleteDocs_tombstones [OF dry]
  show ?thesis by simp
qed

text \<open>
  C2. When the lookup finds at least one facility that refers to the person, the
  events \<open>cleanContactPerson\<close> adds to the trace are such that every store write
  among them comes after the successful write of the audit file, at the person's
  path, holding the facilities exactly as the lookup returned them.
\<close>

theorem cleanContactPerson_audit_before_write:
  assumes look: "isContactFor db (doc_id person) tr = (Inr facilities, tr1)"
      and ne: "facilities \<noteq> []"
      and run: "cleanContactPerson fs db dryrun logdir person tr = (res, tr')"
  shows "take (length tr) tr' = tr
       \<and> (\<forall>pre docs r post.
            drop (length tr) tr' = pre @ BulkDocs docs r # post \<longrightarrow>
            WriteFile (logdir @ ''/cleaned_facilities_'' @ doc_id person @ ''.json'')
                      facilities None \<in> set pre)"
proof -
  from isContactFor_found [OF look ne]
  obtain q l where tr1: "tr1 = tr @ [q, l]" and ql: "is_Query q" "is_Log l" by blast
  from cleanContactPerson_found [OF look ne run] tr1
  obtain rest where tr': "tr' = tr @ q # l # rest"
    and rest: "(\<exists>e l1 l2. rest = [WriteFile (logdir @ ''/cleaned_facilities_'' @ doc_id person @ ''.json'') facilities (Some e), l1, l2] \<and> is_Log l1 \<and> is_Log l2)
       \<or> (\<exists>l1 l2. rest = [WriteFile (logdir @ ''/cleaned_facilities_'' @ doc_id person @ ''.json'') facilities None, l1, l2] \<and> is_Log l1 \<and> is_Log l2)
       \<or> (\<exists>l1 b l2 l3. rest = [WriteFile (logdir @ ''/cleaned_facilities_'' @ doc_id person @ ''.json'') facilities None, l1, b, l2, l3]
             \<and> is_Log l1 \<and> is_Log l2 \<and> is_Log l3)"
    by auto
  have "take (length tr) tr' = tr" using tr' by simp
  moreover have "WriteFile (logdir @ ''/cleaned_facilities_'' @ doc_id person @ ''.json'')
                      facilities None \<in> set pre"
    if "drop (length tr) tr' = pre @ BulkDocs docs r # post" for pre docs r post
  proof -
    from that tr' have eq: "q # l # rest = pre @ BulkDocs docs r # post" by simp
    with ql rest show ?thesis
      by (auto simp: Cons_eq_append_conv)
  qed
  ultimately show ?thesis by blast
qed

theorem cleanContactPerson_audit_before_write_witness:
  "WriteFile ''log/cleaned_facilities_P1.json''
       [example_facility ''F1'' ''P1'', example_facility ''F2'' ''P1''] None
     \<in> set (take 4 (snd (cleanContactPerson example_fs example_db False ''log''
                              (example_person ''P1'') [])))
   \<and> is_BulkDocs (snd (cleanContactPerson example_fs example_db False ''log''
                              (example_person ''P1'') []) ! 4)"
proof -
  let ?run = "cleanContactPerson example_fs example_db False ''log'' (example_person ''P1'') []"
  let ?facilities = "[example_facility ''F1'' ''P1'', example_facility ''F2'' ''P1'']"
  have id: "doc_id (example_person ''P1'') = ''P1''"
    by (simp add: example_person_def example_doc_def)
  have look: "isContactFor example_db (doc_id (example_person ''P1'')) [] =
                (Inr ?facilities, snd (isContactFor example_db (doc_id (example_person ''P1'')) []))"
    by (simp add: cascade_defs example_defs)
  have ne: "?facilities \<noteq> []" by simp
  have run: "?run = (fst ?run, snd ?run)" by simp
  have len: "length (snd ?run) = 7"
    by (simp add: cascade_defs example_defs)
  have bulk: "is_BulkDocs (snd ?run ! 4)"
    by (simp add: cascade_defs example_defs)
  then obtain docs r where at: "snd ?run ! 4 = BulkDocs docs r"
    by (cases "snd ?run ! 4") simp_all
  have split: "drop (length ([]::trace)) (snd ?run) = take 4 (snd ?run) @ BulkDocs docs r # drop 5 (snd ?run)"
  proof -
    have "4 < length (snd ?run)" using len by simp
    from id_take_nth_drop [OF this] at
    have "snd ?run = take 4 (snd ?run) @ BulkDocs docs r # drop (Suc 4) (snd ?run)" by metis
    then show ?thesis by (metis drop0 eval_nat_numeral(3) list.size(3) numeral_plus_one semiring_norm(5) semiring_norm(8) Suc_numeral)
  qed
  from cleanContactPerson_audit_before_write [OF look ne run]
  have "drop (length ([]::trace)) (snd ?run) = take 4 (snd ?run) @ BulkDocs docs r # drop 5 (snd ?run)
        \<longrightarrow> WriteFile (''log'' @ ''/cleaned_facilities_'' @ doc_id (example_person ''P1'') @ ''.json'')
              ?facilities None \<in> set (take 4 (snd ?run))"
    by blast
  with split have "WriteFile (''log'' @ ''/cleaned_facilities_'' @ doc_id (example_person ''P1'') @ ''.json'')
              ?facilities None \<in> set (take 4 (snd ?run))"
    by blast
  with id have "WriteFile ''log/cleaned_facilities_P1.json'' ?facilities None \<in> set (take 4 (snd ?run))"
    by simp
  with bulk show ?thesis by simp
qed

text \<open>
  C3. The trace \<open>cleanContactPersons\<close> leaves is the starting trace followed by one
  block of events per processed person, in the order of the list: block \<open>i\<close> is
  what the cascade of person \<open>i\<close> adds when it starts after all the earlier blocks,
  so no event of a person lies among the events of another. When the promise is
  fulfilled, every person of the list has a block and the value is the list
  itself.
\<close>

theorem cleanContactPersons_sequential:
  "\<exists>blocks. length blocks \<le> length ps
     \<and> snd (cleanContactPersons fs db dryrun logdir ps tr) = tr @ concat blocks
     \<and> (\<forall>i < length blocks.
          snd (cleanContactPerson fs db dryrun logdir (ps ! i) (tr @ concat (take i blocks)))
            = tr @ concat (take (Suc i) blocks))
     \<and> (\<forall>v. fst (cleanContactPersons fs db dryrun logdir ps tr) = Inr v \<longrightarrow>
          v = ps \<and> length blocks = length ps)"
proof (induction ps arbitrary: tr)
  case Nil
  show ?case by (rule exI [of _ "[]"]) (simp add: cleanContactPersons_Nil)
next
  case (Cons p ps)
  obtain r tr1 where one: "cleanContactPerson fs db dryrun logdir p tr = (r, tr1)" by force
  obtain b where b: "tr1 = tr @ b" using cleanContactPerson_extends [of fs db dryrun logdir p tr] one by auto
  show ?case
  proof (cases r)
    case (Inl err)
    with one b show ?thesis
      by (intro exI [of _ "[b]"]) (simp add: cleanContactPersons_Cons)
  next
    case (Inr w)
    from Cons.IH [of tr1] obtain blocks where
      len: "length blocks \<le> length ps" and
      all: "snd (cleanContactPersons fs db dryrun logdir ps tr1) = tr1 @ concat blocks" and
      each: "\<And>i. i < length blocks \<Longrightarrow>
          snd (cleanContactPerson fs db dryrun logdir (ps ! i) (tr1 @ concat (take i blocks)))
            = tr1 @ concat (take (Suc i) blocks)" and
      ok: "\<And>v. fst (cleanContactPersons fs db dryrun logdir ps tr1) = Inr v \<Longrightarrow>
          v = ps \<and> length blocks = length ps"
      by blast
    have 1: "length (b # blocks) \<le> length (p # ps)" using len by simp
    have 2: "snd (cleanContactPersons fs db dryrun logdir (p # ps) tr) = tr @ concat (b # blocks)"
      using one Inr all b by (auto simp add: cleanContactPersons_Cons split: prod.splits sum.splits)
    have 3: "snd (cleanContactPerson fs db dryrun logdir ((p # ps) ! i) (tr @ concat (take i (b # blocks))))
            = tr @ concat (take (Suc i) (b # blocks))" if "i < length (b # blocks)" for i
    proof (cases i)
      case 0
      with one b show ?thesis by simp
    next
      case (Suc j)
      with that each [of j] b show ?thesis by simp
    qed
    have 4: "v = p # ps \<and> length (b # blocks) = length (p # ps)"
      if "fst (cleanContactPersons fs db dryrun logdir (p # ps) tr) = Inr v" for v
      using that one Inr ok
      by (auto simp: cleanContactPersons_Cons split: prod.splits sum.splits)
    from 1 2 3 4 show ?thesis by blast
  qed
qed

theorem cleanContactPersons_sequential_witness:
  "cleanContactPersons example_fs example_db False ''log''
       [example_person ''P1'', example_person ''P2''] [] =
     (Inr [example_person ''P1'', example_person ''P2''],
      snd (cleanContactPerson example_fs example_db False ''log'' (example_person ''P2'')
            (snd (cleanContactPerson example_fs example_db False ''log''
                    (example_person ''P1'') []))))"
proof -
  let ?ps = "[example_person ''P1'', example_person ''P2'']"
  let ?all = "cleanContactPersons example_fs example_db False ''log'' ?ps []"
  let ?one = "cleanContactPerson example_fs example_db False ''log''"
  from cleanContactPersons_sequential [of ?ps example_fs example_db False "''log''" "[]"]
  obtain blocks where
    tr: "snd ?all = [] @ concat blocks" and
    each: "\<forall>i < length blocks. snd (?one (?ps ! i) ([] @ concat (take i blocks)))
             = [] @ concat (take (Suc i) blocks)" and
    ok: "\<forall>v. fst ?all = Inr v \<longrightarrow> v = ?ps \<and> length blocks = length ?ps"
    by blast
  have "\<exists>v. fst ?all = Inr v"
    by (simp add: cleanContactPersons_def cascade_defs example_defs)
  then obtain v where v: "fst ?all = Inr v" by blast
  with ok have val: "v = ?ps" and len: "length blocks = 2" by auto
  have "(0::nat) < length blocks" "(1::nat) < length blocks" using len by simp_all
  with each have
    e0: "snd (?one (?ps ! 0) ([] @ concat (take 0 blocks))) = [] @ concat (take (Suc 0) blocks)" and
    e1: "snd (?one (?ps ! 1) ([] @ concat (take 1 blocks))) = [] @ concat (take (Suc 1) blocks)"
    by blast+
  from e0 have first: "snd (?one (example_person ''P1'') []) = concat (take 1 blocks)" by simp
  from e1 len have "snd (?one (example_person ''P2'') (concat (take 1 blocks))) = concat blocks"
    by simp
  with first tr have "snd ?all = snd (?one (example_person ''P2'') (snd (?one (example_person ''P1'') [])))"
    by simp
  with v val show ?thesis by (simp add: prod_eq_iff)
qed

text \<open>
  C4. Let the persons before \<open>p\<close> be processed without error, and let one step
  of \<open>p\<close> be rejected with \<open>err\<close>: the lookup, or the write of the audit file,
  or the bulk write. Then \<open>cleanContactPersons\<close> is rejected with \<open>err\<close>, its trace
  ends where the cascade of \<open>p\<close> ends, whoever comes after \<open>p\<close> in the list, and
  the last two lines logged name \<open>p\<close> and give the error.
\<close>

theorem cleanContactPersons_fail_fast:
  assumes before: "cleanContactPersons fs db dryrun logdir before tr = (Inr v, tr1)"
      and step: "fst (isContactFor db (doc_id p) tr1) = Inl err
         \<or> (\<exists>facilities tA tB.
               isContactFor db (doc_id p) tr1 = (Inr facilities, tA) \<and> facilities \<noteq> []
             \<and> writeDocsToFile fs (logdir @ ''/cleaned_facilities_'' @ doc_id p @ ''.json'')
                  facilities tA = (Promise (Inl err), tB))
         \<or> (\<exists>facilities tA docs tB facilities' tC.
               isContactFor db (doc_id p) tr1 = (Inr facilities, tA) \<and> facilities \<noteq> []
             \<and> writeDocsToFile fs (logdir @ ''/cleaned_facilities_'' @ doc_id p @ ''.json'')
                  facilities tA = (Promise (Inr docs), tB)
             \<and> removeContact db dryrun p docs tB = (Inl err, facilities', tC))"
  shows "cleanContactPersons fs db dryrun logdir (before @ p # rest) tr =
           (Inl err, snd (cleanContactPerson fs db dryrun logdir p tr1))
       \<and> (\<exists>mid. snd (cleanContactPerson fs db dryrun logdir p tr1) =
                  tr1 @ mid @ [Log [JStr (''Error when removing contact '' @ doc_id p)],
                               Log [err]])"
proof -
  obtain tr2 where fail: "cleanContactPerson fs db dryrun logdir p tr1 = (Inl err, tr2)"
    using step_failure [OF step] by (metis prod.collapse)
  from cleanContactPersons_stop [OF before fail] cleanContactPerson_rejected [OF fail] fail
  show ?thesis by simp
qed

theorem cleanContactPersons_fail_fast_witness:
  "fst (cleanContactPersons example_fs offline_db False ''log''
          [example_person ''P3'', example_person ''P1'', example_person ''P2''] [])
     = Inl (JStr ''ECONNREFUSED'')
   \<and> cleanContactPersons full_fs example_db False ''log''
          [example_person ''P3'', example_person ''P1'', example_person ''P2''] []
     = (Inl (JStr ''Couldn't write to filelog/cleaned_facilities_P1.json''),
        snd (cleanContactPerson full_fs example_db False ''log'' (example_person ''P1'')
               (snd (cleanContactPersons full_fs example_db False ''log''
                       [example_person ''P3''] []))))
   \<and> cleanContactPersons example_fs readonly_db False ''log''
          [example_person ''P3'', example_person ''P1'', example_person ''P2''] []
     = (Inl (JStr ''forbidden''),
        snd (cleanContactPerson example_fs readonly_db False ''log'' (example_person ''P1'')
               (snd (cleanContactPersons example_fs readonly_db False ''log''
                       [example_person ''P3''] []))))"
proof -
  let ?P1 = "example_person ''P1''" and ?P2 = "example_person ''P2''"
  and ?P3 = "example_person ''P3''"
  have a0: "cleanContactPersons example_fs offline_db False ''log'' [] [] = (Inr [], [])"
    by (simp add: cleanContactPersons_Nil)
  have a1: "fst (isContactFor offline_db (doc_id ?P3) []) = Inl (JStr ''ECONNREFUSED'')
          \<or> (\<exists>facilities tA tB.
               isContactFor offline_db (doc_id ?P3) [] = (Inr facilities, tA) \<and> facilities \<noteq> []
             \<and> writeDocsToFile example_fs (''log'' @ ''/cleaned_facilities_'' @ doc_id ?P3 @ ''.json'')
                  facilities tA = (Promise (Inl (JStr ''ECONNREFUSED'')), tB))
         \<or> (\<exists>facilities tA docs tB facilities' tC.
               isContactFor offline_db (doc_id ?P3) [] = (Inr facilities, tA) \<and> facilities \<noteq> []
             \<and> writeDocsToFile example_fs (''log'' @ ''/cleaned_facilities_'' @ doc_id ?P3 @ ''.json'')
                  facilities tA = (Promise (Inr docs), tB)
             \<and> removeContact offline_db False ?P3 docs tB = (Inl (JStr ''ECONNREFUSED''), facilities', tC))"
    by (simp add: cascade_defs example_defs)
  have a: "fst (cleanContactPersons example_fs offline_db False ''log'' [?P3, ?P1, ?P2] [])
             = Inl (JStr ''ECONNREFUSED'')"
    using cleanContactPersons_fail_fast [OF a0 a1, of "[?P1, ?P2]"] by simp

  let ?b = "cleanContactPersons full_fs example_db False ''log'' [?P3] []"
  have b0: "?b = (Inr [?P3], snd ?b)"
    by (simp add: cleanContactPersons_def cascade_defs example_defs)
  have b1: "fst (isContactFor example_db (doc_id ?P1) (snd ?b)) =
              Inl (JStr ''Couldn't write to filelog/cleaned_facilities_P1.json'')
          \<or> (\<exists>facilities tA tB.
               isContactFor example_db (doc_id ?P1) (snd ?b) = (Inr facilities, tA) \<and> facilities \<noteq> []
             \<and> writeDocsToFile full_fs (''log'' @ ''/cleaned_facilities_'' @ doc_id ?P1 @ ''.json'')
                  facilities tA = (Promise (Inl (JStr ''Couldn't write to filelog/cleaned_facilities_P1.json'')), tB))
         \<or> (\<exists>facilities tA docs tB facilities' tC.
               isContactFor example_db (doc_id ?P1) (snd ?b) = (Inr facilities, tA) \<and> facilities \<noteq> []
             \<and> writeDocsToFile full_fs (''log'' @ ''/cleaned_facilities_'' @ doc_id ?P1 @ ''.json'')
                  facilities tA = (Promise (Inr docs), tB)
             \<and> removeContact example_db False ?P1 docs tB = (Inl (JStr ''Couldn't write to filelog/cleaned_facilities_P1.json''), facilities', tC))"
    by (simp add: cascade_defs example_defs)
  have b: "cleanContactPersons full_fs example_db False ''log'' [?P3, ?P1, ?P2] []
     = (Inl (JStr ''Couldn't write to filelog/cleaned_facilities_P1.json''),
        snd (cleanContactPerson full_fs example_db False ''log'' ?P1 (snd ?b)))"
    using cleanContactPersons_fail_fast [OF b0 b1, of "[?P2]"] by simp

  let ?c = "cleanContactPersons example_fs readonly_db False ''log'' [?P3] []"
  have c0: "?c = (Inr [?P3], snd ?c)"
    by (simp add: cleanContactPersons_def cascade_defs example_defs)
  have c1: "fst (isContactFor readonly_db (doc_id ?P1) (snd ?c)) = Inl (JStr ''forbidden'')
          \<or> (\<exists>facilities tA tB.
               isContactFor readonly_db (doc_id ?P1) (snd ?c) = (Inr facilities, tA) \<and> facilities \<noteq> []
             \<and> writeDocsToFile example_fs (''log'' @ ''/cleaned_facilities_'' @ doc_id ?P1 @ ''.json'')
                  facilities tA = (Promise (Inl (JStr ''forbidden'')), tB))
         \<or> (\<exists>facilities tA docs tB facilities' tC.
               isContactFor readonly_db (doc_id ?P1) (snd ?c) = (Inr facilities, tA) \<and> facilities \<noteq> []
             \<and> writeDocsToFile example_fs (''log'' @ ''/cleaned_facilities_'' @ doc_id ?P1 @ ''.json'')
                  facilities tA = (Promise (Inr docs), tB)
             \<and> removeContact readonly_db False ?P1 docs tB = (Inl (JStr ''forbidden''), facilities', tC))"
    by (simp add: cascade_defs example_defs)
  have c: "cleanContactPersons example_fs readonly_db False ''log'' [?P3, ?P1, ?P2] []
     = (Inl (JStr ''forbidden''),
        snd (cleanContactPerson example_fs readonly_db False ''log'' ?P1 (snd ?c)))"
    using cleanContactPersons_fail_fast [OF c0 c1, of "[?P2]"] by simp
  from a b c show ?thesis by simp
qed

text \<open>
  C5. \<open>writeDocsToFile\<close> on an empty list returns the list and leaves the trace as
  it is. When the lookup finds no facility for a person, the cascade of that person
  adds the query to the trace and nothing else: no file write, no store write.
\<close>

theorem empty_is_noop:
  "writeDocsToFile fs path [] tr = (Plain [], tr)
   \<and> (fst (isContactFor db (doc_id person) tr) = Inr [] \<longrightarrow>
        (\<exists>q. is_Query q
            \<and> cleanContactPerson fs db dryrun logdir person tr = (Inr None, tr @ [q]))
        \<and> file_writes (snd (cleanContactPerson fs db dryrun logdir person tr)) = file_writes tr
        \<and> store_writes (snd (cleanContactPerson fs db dryrun logdir person tr)) = store_writes tr)"
proof -
  have "writeDocsToFile fs path [] tr = (Plain [], tr)"
    by (simp add: writeDocsToFile_def)
  moreover have "(\<exists>q. is_Query q
            \<and> cleanContactPerson fs db dryrun logdir person tr = (Inr None, tr @ [q]))
        \<and> file_writes (snd (cleanContactPerson fs db dryrun logdir person tr)) = file_writes tr
        \<and> store_writes (snd (cleanContactPerson fs db dryrun logdir person tr)) = store_writes tr"
    if "fst (isContactFor db (doc_id person) tr) = Inr []"
  proof -
    from that obtain tr1 where look: "isContactFor db (doc_id person) tr = (Inr [], tr1)"
      by (metis prod.collapse)
    from isContactFor_none [OF look] obtain q where q: "tr1 = tr @ [q]" "is_Query q" by blast
    from look q have run: "cleanContactPerson fs db dryrun logdir person tr = (Inr None, tr @ [q])"
      by (simp add: cleanContactPerson_def)
    from q(2) have "file_writes [q] = []" "store_writes [q] = []" by (cases q; simp)+
    with run q show ?thesis by (auto simp: file_writes_append store_writes_append)
  qed
  ultimately show ?thesis by blast
qed

theorem empty_is_noop_witness:
  "writeDocsToFile example_fs ''log/cleaned_facilities_P3.json'' [] [] = (Plain [], [])
   \<and> fst (cleanContactPerson example_fs example_db False ''log'' (example_person ''P3'') [])
       = Inr None
   \<and> file_writes (snd (cleanContactPerson example_fs example_db False ''log''
                          (example_person ''P3'') [])) = []
   \<and> store_writes (snd (cleanContactPerson example_fs example_db False ''log''
                           (example_person ''P3'') [])) = []"
proof -
  have look: "fst (isContactFor example_db (doc_id (example_person ''P3'')) []) = Inr []"
    by (simp add: cascade_defs example_defs)
  from empty_is_noop [of example_fs "''log/cleaned_facilities_P3.json''" "[]" example_db
                         "example_person ''P3''" False "''log''"] look
  show ?thesis by auto
qed

text \<open>
  C6, as the code has it. \<open>filterByDate\<close> keeps, in order, exactly the documents
  whose \<^verbatim>\<open>reported_date\<close> is present, is not zero and lies in \<open>[t0, t1)\<close>. A
  document dated \<open>t0\<close> is kept when \<open>t0\<close> is not zero and the interval is not empty,
  a document dated \<open>t1\<close> is dropped, and so is a document with no date.
\<close>

theorem filterByDate_range:
  "fst (filterByDate docs t0 t1 tr) =
     filter (\<lambda>d. \<exists>t. reported_date d = Some t \<and> t \<noteq> 0 \<and> t0 \<le> t \<and> t < t1) docs
   \<and> (\<forall>d \<in> set docs. reported_date d = Some t0 \<and> t0 \<noteq> 0 \<and> t0 < t1 \<longrightarrow>
         d \<in> set (fst (filterByDate docs t0 t1 tr)))
   \<and> (\<forall>d. reported_date d = Some t1 \<longrightarrow> d \<notin> set (fst (filterByDate docs t0 t1 tr)))
   \<and> (\<forall>d. reported_date d = None \<longrightarrow> d \<notin> set (fst (filterByDate docs t0 t1 tr)))"
  by (simp add: filterByDate_filter)

theorem filterByDate_range_witness:
  "fst (filterByDate [example_report ''R1'' 10, example_report ''R2'' 15,
                      example_report ''R3'' 20, example_doc ''R4''] 10 20 [])
     = [example_report ''R1'' 10, example_report ''R2'' 15]
   \<and> example_report ''R1'' 10 \<in> set (fst (filterByDate
         [example_report ''R1'' 10, example_report ''R2'' 15,
          example_report ''R3'' 20, example_doc ''R4''] 10 20 []))
   \<and> example_report ''R3'' 20 \<notin> set (fst (filterByDate
         [example_report ''R1'' 10, example_report ''R2'' 15,
          example_report ''R3'' 20, example_doc ''R4''] 10 20 []))
   \<and> example_doc ''R4'' \<notin> set (fst (filterByDate
         [example_report ''R1'' 10, example_report ''R2'' 15,
          example_report ''R3'' 20, example_doc ''R4''] 10 20 []))"
proof -
  let ?docs = "[example_report ''R1'' 10, example_report ''R2'' 15,
                example_report ''R3'' 20, example_doc ''R4'']"
  have r1: "example_report ''R1'' 10 \<in> set ?docs" by simp
  have d1: "reported_date (example_report ''R1'' 10) = Some 10 \<and> (10::int) \<noteq> 0 \<and> (10::int) < 20"
    by (simp add: example_defs)
  have d3: "reported_date (example_report ''R3'' 20) = Some 20" by (simp add: example_defs)
  have d4: "reported_date (example_doc ''R4'') = None" by (simp add: example_defs)
  note inst = filterByDate_range [of ?docs 10 20 "[]"]
  from inst have "fst (filterByDate ?docs 10 20 []) =
     filter (\<lambda>d. \<exists>t. reported_date d = Some t \<and> t \<noteq> 0 \<and> 10 \<le> t \<and> t < 20) ?docs"
    by blast
  then have eq: "fst (filterByDate ?docs 10 20 []) = [example_report ''R1'' 10, example_report ''R2'' 15]"
    by (simp add: example_defs)
  from inst r1 d1 have a: "example_report ''R1'' 10 \<in> set (fst (filterByDate ?docs 10 20 []))"
    by blast
  from inst d3 have b: "example_report ''R3'' 20 \<notin> set (fst (filterByDate ?docs 10 20 []))"
    by blast
  from inst d4 have c: "example_doc ''R4'' \<notin> set (fst (filterByDate ?docs 10 20 []))"
    by blast
  from eq a b c show ?thesis by blast
qed

text \<open>
  C6 as it is written fails at the date zero: with \<open>t0 = 0\<close> and \<open>t1 = 1\<close> a document
  dated \<open>0\<close> lies in \<open>[t0, t1)\<close> and is dated \<open>t0\<close>, and the filter drops it.
\<close>

theorem epoch_report_dropped_counterexample:
  "reported_date (example_report ''R0'' 0) = Some 0 \<and> (0::int) \<le> 0 \<and> (0::int) < 1
   \<and> example_report ''R0'' 0 \<notin> set (fst (filterByDate [example_report ''R0'' 0] 0 1 []))"
  by (simp add: filterByDate_def truthy_def example_defs)

text \<open>
  C7, as the code has it. \<open>removeContact\<close> deletes the property \<^verbatim>\<open>contact\<close> of every
  facility of the list: afterwards no facility has the property (it does not hold
  \<^verbatim>\<open>null\<close>). With dry-run off, that list is what it writes to the store. It
  returns the person under dry-run, and when the store fulfils the write.
\<close>

theorem removeContact_deletes_contact:
  assumes "removeContact db dryrun person fl tr = (res, fl', tr')"
  shows "fl' = map (\<lambda>facility. facility\<lparr>contact := None\<rparr>) fl
       \<and> (\<forall>facility \<in> set fl'. contact facility = None)
       \<and> (\<not> dryrun \<longrightarrow> store_writes tr' = store_writes tr @ [fl'])
       \<and> (dryrun \<or> (\<exists>result. bulkDocs db tr fl' = Inr result) \<longrightarrow> res = Inr person)"
proof (cases dryrun)
  case True
  with assms show ?thesis by (auto simp: removeContact_dry)
next
  case False
  with assms show ?thesis
    by (cases "bulkDocs db tr (map (\<lambda>facility. facility\<lparr>contact := None\<rparr>) fl)")
       (auto simp: removeContact_wet Let_def store_writes_append)
qed

theorem removeContact_deletes_contact_witness:
  "store_writes (snd (snd (removeContact example_db False (example_person ''P1'')
       [example_facility ''F1'' ''P1'', example_facility ''F2'' ''P1''] [])))
     = [[(example_facility ''F1'' ''P1'')\<lparr>contact := None\<rparr>,
         (example_facility ''F2'' ''P1'')\<lparr>contact := None\<rparr>]]
   \<and> fst (removeContact example_db False (example_person ''P1'')
       [example_facility ''F1'' ''P1'', example_facility ''F2'' ''P1''] [])
     = Inr (example_person ''P1'')
   \<and> fst (removeContact example_db True (example_person ''P1'')
       [example_facility ''F1'' ''P1'', example_facility ''F2'' ''P1''] [])
     = Inr (example_person ''P1'')"
proof -
  let ?fl = "[example_facility ''F1'' ''P1'', example_facility ''F2'' ''P1'']"
  let ?wet = "removeContact example_db False (example_person ''P1'') ?fl []"
  let ?dry = "removeContact example_db True (example_person ''P1'') ?fl []"
  have wet: "?wet = (fst ?wet, fst (snd ?wet), snd (snd ?wet))" by simp
  have dry: "?dry = (fst ?dry, fst (snd ?dry), snd (snd ?dry))" by simp
  have ok: "\<exists>result. bulkDocs example_db [] (fst (snd ?wet)) = Inr result"
    by (simp add: example_db_def)
  from removeContact_deletes_contact [OF wet] ok removeContact_deletes_contact [OF dry]
  show ?thesis by simp
qed

text \<open>
  C7 as it is written fails: the facility written to the store has no property
  \<^verbatim>\<open>contact\<close>, which is not a \<^verbatim>\<open>contact\<close> set to \<^verbatim>\<open>null\<close>; and when the store
  rejects the write, the person is not returned.
\<close>

theorem contact_not_null_counterexample:
  "store_writes (snd (snd (removeContact readonly_db False (example_person ''P1'')
       [example_facility ''F1'' ''P1''] [])))
     = [[(example_facility ''F1'' ''P1'')\<lparr>contact := None\<rparr>]]
   \<and> contact ((example_facility ''F1'' ''P1'')\<lparr>contact := None\<rparr>) \<noteq> Some JNull
   \<and> fst (removeContact readonly_db False (example_person ''P1'')
       [example_facility ''F1'' ''P1''] []) \<noteq> Inr (example_person ''P1'')"
  by (simp add: removeContact_def readonly_db_def Let_def)

text \<open>
  C8. The validator accepts the answer \<^verbatim>\<open>y\<close>, so \<^verbatim>\<open>prompt.get\<close> hands it to the
  callback; the callback compares it with \<^verbatim>\<open>'yes'\<close>, logs that the user backed
  out and ends the process. Only the answer \<^verbatim>\<open>yes\<close>, typed or taken from the
  default on a blank line, resolves the promise; \<^verbatim>\<open>no\<close> and a closed input channel
  end the process.
\<close>

theorem userConfirm_abbreviation_exits:
  "prompt_get [''y''] (yesno_property message) = Inr ''y''
   \<and> userConfirm (prompt_get [''y'']) message tr =
       (ProcessExit, tr @ [Log [JStr message], Log [JStr ''User backed out. Exiting.'']])
   \<and> fst (userConfirm (prompt_get [''yes'']) message tr) = Resolved
   \<and> fst (userConfirm (prompt_get ['''']) message tr) = Resolved
   \<and> fst (userConfirm (prompt_get [''no'']) message tr) = ProcessExit
   \<and> fst (userConfirm (prompt_get []) message tr) = ProcessExit"
  by (simp add: userConfirm_def yesno_property_def regex_test_def)

text \<open>
  C9. A document whose \<^verbatim>\<open>reported_date\<close> is \<open>0\<close> is never in the result of
  \<open>filterByDate\<close>, whatever the interval, also when the interval contains \<open>0\<close>.
\<close>

theorem filterByDate_zero_excluded:
  "reported_date d = Some 0 \<Longrightarrow> d \<notin> set (fst (filterByDate docs t0 t1 tr))"
  by (simp add: filterByDate_def Let_def truthy_def)

theorem filterByDate_zero_excluded_witness:
  "reported_date (example_report ''R5'' 0) = Some 0 \<and> (-5::int) \<le> 0 \<and> (0::int) < 5
   \<and> example_report ''R5'' 0
       \<notin> set (fst (filterByDate [example_report ''R5'' 0, example_report ''R6'' 3] (-5) 5 []))"
proof -
  have zero: "reported_date (example_report ''R5'' 0) = Some 0" by (simp add: example_defs)
  from filterByDate_zero_excluded [OF zero, of "[example_report ''R5'' 0, example_report ''R6'' 3]" "-5" 5 "[]"] zero
  show ?thesis by simp
qed

text \<open>
  C10. Whatever the dry-run flag, after \<open>removeContact\<close> the caller's list is the
  input list with the property \<^verbatim>\<open>contact\<close> deleted from every facility. Under
  dry-run no store write is issued and the person is returned.
\<close>

theorem removeContact_dryrun_mutates:
  "fst (snd (removeContact db dryrun person fl tr))
     = map (\<lambda>facility. facility\<lparr>contact := None\<rparr>) fl
   \<and> (\<forall>facility \<in> set (fst (snd (removeContact db dryrun person fl tr))).
         contact facility = None)
   \<and> (dryrun \<longrightarrow>
         store_writes (snd (snd (removeContact db dryrun person fl tr))) = store_writes tr
       \<and> fst (removeContact db dryrun person fl tr) = Inr person)"
  by (auto simp: removeContact_list removeContact_dry store_writes_append)

theorem removeContact_dryrun_mutates_witness:
  "fst (snd (removeContact example_db True (example_person ''P2'')
               [example_facility ''F3'' ''P2''] []))
     = [(example_facility ''F3'' ''P2'')\<lparr>contact := None\<rparr>]
   \<and> contact (example_facility ''F3'' ''P2'') = Some (JStr ''P2'')
   \<and> contact (hd (fst (snd (removeContact example_db True (example_person ''P2'')
               [example_facility ''F3'' ''P2''] [])))) = None
   \<and> store_writes (snd (snd (removeContact example_db True (example_person ''P2'')
               [example_facility ''F3'' ''P2''] []))) = []"
proof -
  have before: "contact (example_facility ''F3'' ''P2'') = Some (JStr ''P2'')"
    by (simp add: example_defs)
  from removeContact_dryrun_mutates [of example_db True "example_person ''P2''"
         "[example_facility ''F3'' ''P2'']" "[]"] before
  show ?thesis by simp
qed

end
